theory Spec2Isabelle
  imports Main "HOL-Library.Word" "HOL-Library.Product_Lexorder" "HOL-Library.Multiset"
begin

section \<open>The nostrdb JNI bridge (ndb\_jni.c)\<close>

text \<open>
  The source is the JNI bridge between Kotlin and the nostrdb engine. Every entry point
  unpacks its handles, calls one function of the engine, and converts the answer into a
  Java value. The engine itself (nostrdb.h and its implementation) is not part of the
  source: the bridge functions below take the engine function they call as an argument,
  so that what is proved about the bridge holds for whatever the engine answers.

  Conventions of the embedding:
  \<^item> \<open>jlong\<close>, \<open>uint64_t\<close>, \<open>size_t\<close> and bytes are machine words, \<open>size_t\<close> being
    64 bits wide; a \<open>jint\<close> that the code only compares or hands on (an index, a limit)
    is an integer;
  \<^item> a handle (\<open>ndb_ptr\<close>, \<open>txn_ptr\<close>, \<open>filter_ptr\<close>) is either NULL or the address of
    a live object: it is an \<open>option\<close>, \<open>None\<close> being the NULL handle;
  \<^item> a Java reference returned by the bridge is an \<open>option\<close> as well, \<open>None\<close> being
    \<open>null\<close>;
  \<^item> an allocation whose size the caller chooses (the buffers of \<open>nativeQuery\<close> and
    \<open>nativePollForNotes\<close>, sized by \<open>limit\<close> and \<open>max_notes\<close>) may fail: the address that
    \<open>malloc\<close> answers is an argument of the model, 0 being NULL, as it is for the
    transaction object of \<open>nativeBeginQuery\<close>;
  \<^item> for the other allocations, whose size is fixed or is that of the data returned, the
    C heap and the JVM do not run out of memory: \<open>malloc\<close>, \<open>NewLongArray\<close>,
    \<open>NewObjectArray\<close>, \<open>NewByteArray\<close>, \<open>NewStringUTF\<close>, \<open>FindClass\<close> and
    \<open>GetByteArrayElements\<close> succeed, and the branches that the source takes when one of
    them fails are not part of the model.
\<close>

type_synonym jlong = "64 word"
type_synonym byte = "8 word"
type_synonym size_t = "64 word"

subsection \<open>json\_escape\_string (lines 181-213)\<close>

text \<open>
  The characters the loop tests for. A C string ends at its first NUL; the list that
  models \<open>src\<close> is read up to its first NUL or to its end, whichever comes first.
\<close>

definition NUL :: char where "NUL = CHR 0x00"
definition dquote :: char where "dquote = CHR 0x22"
definition backslash :: char where "backslash = CHR 0x5C"
definition newline :: char where "newline = CHR 0x0A"
definition carriage_return :: char where "carriage_return = CHR 0x0D"
definition tab :: char where "tab = CHR 0x09"

text \<open>
  The loop \<open>for (si = 0; src[si] && di < dest_size - 2; si++)\<close>. The argument \<open>di\<close>
  is the write index, a \<open>size_t\<close> like \<open>dest_size\<close>, so \<open>dest_size - 2\<close> and
  \<open>di + 2\<close> wrap around as in C. The result is the list of characters stored into
  \<open>dest\<close> from index \<open>di\<close> on; a \<open>break\<close> ends the loop and stores nothing more.
\<close>

fun escape_loop :: "size_t \<Rightarrow> char list \<Rightarrow> size_t \<Rightarrow> char list" where
  "escape_loop dest_size [] di = []"
| "escape_loop dest_size (c # cs) di =
     (if c = NUL \<or> \<not> di < dest_size - 2 then []
      else if c = dquote \<or> c = backslash then
        (if di + 2 \<ge> dest_size then []
         else backslash # c # escape_loop dest_size cs (di + 2))
      else if c = newline then
        (if di + 2 \<ge> dest_size then []
         else backslash # CHR ''n'' # escape_loop dest_size cs (di + 2))
      else if c = carriage_return then
        (if di + 2 \<ge> dest_size then []
         else backslash # CHR ''r'' # escape_loop dest_size cs (di + 2))
      else if c = tab then
        (if di + 2 \<ge> dest_size then []
         else backslash # CHR ''t'' # escape_loop dest_size cs (di + 2))
      else if (of_char c :: nat) < 0x20 then escape_loop dest_size cs di
      else c # escape_loop dest_size cs (di + 1))"

text \<open>
  \<open>json_escape_string dest dest_size src\<close>: the content of \<open>dest\<close> before the
  terminating NUL that the function stores at \<open>dest[di]\<close>. A NULL \<open>src\<close> gives the
  empty string.
\<close>

definition json_escape_string :: "size_t \<Rightarrow> char list option \<Rightarrow> char list" where
  "json_escape_string dest_size src =
     (case src of None \<Rightarrow> [] | Some s \<Rightarrow> escape_loop dest_size s 0)"

text \<open>What the claim says each character becomes, and the C string a list denotes.\<close>

definition json_escape_char :: "char \<Rightarrow> char list" where
  "json_escape_char c =
     (if c = dquote \<or> c = backslash then [backslash, c]
      else if c = newline then [backslash, CHR ''n'']
      else if c = carriage_return then [backslash, CHR ''r'']
      else if c = tab then [backslash, CHR ''t'']
      else if (of_char c :: nat) < 0x20 then []
      else [c])"

definition c_string :: "char list \<Rightarrow> char list" where
  "c_string s = takeWhile (\<lambda>c. c \<noteq> NUL) s"

subsection \<open>Notes and tags, as the bridge reads them\<close>

text \<open>
  Modelled from the spec: \<open>struct ndb_note\<close>, \<open>struct ndb_str\<close> and their accessors are
  declared in nostrdb.h, which is not part of the source. The Event Record of the
  spec's data model (identifier, author, signature, creation timestamp, kind, content,
  ordered tags) is a record; its fields carry the names of the accessor functions the
  bridge calls. A tag element is the tagged union of the spec: the flag
  \<open>NDB_PACKED_STR\<close> with a C string, or the flag \<open>NDB_PACKED_ID\<close> with a pointer to
  the 32 packed bytes of an identifier; either pointer may be NULL (\<open>None\<close>), and
  \<open>NDB_OTHER\<close> stands for any other flag value. A C string is the list of its
  characters before the terminating NUL. The tag count is a 16-bit field of the packed
  note; it is the length of the list here.
\<close>

datatype ndb_str =
    NDB_PACKED_STR "string option"
  | NDB_PACKED_ID "byte list option"
  | NDB_OTHER

record ndb_note =
  ndb_note_id :: "byte list"
  ndb_note_pubkey :: "byte list"
  ndb_note_sig :: "byte list"
  ndb_note_created_at :: "32 word"
  ndb_note_kind :: "32 word"
  ndb_note_content :: "string option"
  ndb_note_tags :: "ndb_str list list option"

definition ndb_tags_count :: "ndb_str list list \<Rightarrow> nat" where
  "ndb_tags_count tags = length tags"

definition ndb_tag_count :: "ndb_str list \<Rightarrow> nat" where
  "ndb_tag_count tag = length tag"

subsection \<open>nativeNoteTags (lines 624-703)\<close>

text \<open>
  \<open>sprintf(hex + j * 2, "%02x", str.id[j])\<close>: two lower-case hexadecimal digits per
  byte, for the 32 bytes \<open>j = 0, ..., 31\<close> of the identifier.
\<close>

definition hex_digits :: string where
  "hex_digits = ''0123456789abcdef''"

definition hex_digit :: "nat \<Rightarrow> char" where
  "hex_digit n = hex_digits ! (n mod 16)"

definition sprintf_02x :: "byte \<Rightarrow> string" where
  "sprintf_02x b = [hex_digit (unat b div 16), hex_digit (unat b mod 16)]"

definition hex_of_id :: "byte list \<Rightarrow> string" where
  "hex_of_id ident = concat (map (\<lambda>j. sprintf_02x (ident ! j)) [0..<32])"

text \<open>
  The body of the inner loop, for one element: the Java string stored into the slot of
  the tag's array, or \<open>None\<close> when neither branch runs and the slot keeps the
  \<open>null\<close> it was created with. \<open>NewStringUTF\<close> is the identity on the characters of
  the C string: a Java string is modelled by its UTF-8 text.
\<close>

fun tag_element :: "ndb_str \<Rightarrow> string option" where
  "tag_element (NDB_PACKED_STR (Some str)) = Some str"
| "tag_element (NDB_PACKED_ID (Some ident)) = Some (hex_of_id ident)"
| "tag_element _ = None"

text \<open>
  The outer loop \<open>while (ndb_tags_iterate_next(&iter) && tag_index < tag_count)\<close>: the
  first argument is what the iterator has still to deliver, \<open>result\<close> is the outer array,
  created with \<open>tag_count\<close> null slots.
\<close>

fun tags_loop ::
  "ndb_str list list \<Rightarrow> nat \<Rightarrow> nat \<Rightarrow> string option list option list
     \<Rightarrow> string option list option list" where
  "tags_loop [] tag_index tag_count result = result"
| "tags_loop (tag # rest) tag_index tag_count result =
     (if tag_index < tag_count
      then tags_loop rest (tag_index + 1) tag_count
             (result[tag_index := Some (map (\<lambda>i. tag_element (tag ! i)) [0..<ndb_tag_count tag])])
      else result)"

definition nativeNoteTags ::
  "('txn \<Rightarrow> jlong \<Rightarrow> ndb_note option) \<Rightarrow> 'ndb option \<Rightarrow> 'txn option \<Rightarrow> jlong
     \<Rightarrow> string option list option list option" where
  "nativeNoteTags ndb_get_note_by_key ndb txn note_key =
     (case ndb of None \<Rightarrow> None | Some _ \<Rightarrow>
      (case txn of None \<Rightarrow> None | Some t \<Rightarrow>
       (case ndb_get_note_by_key t note_key of None \<Rightarrow> None | Some note \<Rightarrow>
        (case ndb_note_tags note of None \<Rightarrow> None | Some tags \<Rightarrow>
         (let tag_count = ndb_tags_count tags in
          if tag_count = 0 then None
          else Some (tags_loop tags 0 tag_count (replicate tag_count None)))))))"

text \<open>Reading a hexadecimal string back, to say what rendering in hexadecimal means.\<close>

definition hex_value :: "char \<Rightarrow> nat" where
  "hex_value c =
     (let n = (of_char c :: nat) in
      if 48 \<le> n \<and> n \<le> 57 then n - 48 else if 97 \<le> n \<and> n \<le> 102 then n - 87 else 0)"

fun unhex :: "string \<Rightarrow> byte list" where
  "unhex (hi # lo # cs) = of_nat (hex_value hi * 16 + hex_value lo) # unhex cs"
| "unhex _ = []"

subsection \<open>Lookups: nativeGetNoteById (lines 127-157) and nativeNoteContent (lines 503-523)\<close>

text \<open>
  \<open>ndb_get_note_by_id\<close> answers NULL (\<open>None\<close>) or the address of the packed note, its
  length and its key; the argument of the model gives the bytes at that address. The
  bridge copies \<open>len\<close> bytes into a new byte array; \<open>len\<close> is converted to the 32-bit
  \<open>jsize\<close>, and \<open>NewByteArray\<close> answers NULL for a negative size.
\<close>

definition nativeGetNoteById ::
  "('txn \<Rightarrow> byte list \<Rightarrow> (byte list \<times> size_t \<times> 64 word) option)
     \<Rightarrow> 'ndb option \<Rightarrow> 'txn option \<Rightarrow> byte list \<Rightarrow> byte list option" where
  "nativeGetNoteById ndb_get_note_by_id ndb txn note_id =
     (case ndb of None \<Rightarrow> None | Some _ \<Rightarrow>
      (case txn of None \<Rightarrow> None | Some t \<Rightarrow>
       (case ndb_get_note_by_id t note_id of None \<Rightarrow> None
        | Some (note, len, primkey) \<Rightarrow>
           if len = 0 then None
           else (let n = (ucast len :: 32 word) in
                 if sint n < 0 then None else Some (take (unat n) note)))))"

definition nativeNoteContent ::
  "('txn \<Rightarrow> jlong \<Rightarrow> ndb_note option) \<Rightarrow> 'ndb option \<Rightarrow> 'txn option \<Rightarrow> jlong
     \<Rightarrow> string option" where
  "nativeNoteContent ndb_get_note_by_key ndb txn note_key =
     (case ndb of None \<Rightarrow> None | Some _ \<Rightarrow>
      (case txn of None \<Rightarrow> None | Some t \<Rightarrow>
       (case ndb_get_note_by_key t note_key of None \<Rightarrow> None | Some note \<Rightarrow>
        (case ndb_note_content note of None \<Rightarrow> None | Some content \<Rightarrow> Some content))))"

subsection \<open>Statistics: nativeGetStats and the name lookups (lines 746-870)\<close>

text \<open>
  The constants \<open>NDB_DBS\<close> and \<open>NDB_CKIND_COUNT\<close> come from nostrdb.h, which is not
  part of the source: the functions that use them take them as the two fields of a
  header record. The comments of the source give 16 and 15.
\<close>

record nostrdb_h =
  NDB_DBS :: nat
  NDB_CKIND_COUNT :: nat

definition documented_header :: nostrdb_h where
  "documented_header = \<lparr>NDB_DBS = 16, NDB_CKIND_COUNT = 15\<rparr>"

record ndb_stat_counts =
  key_size :: size_t
  value_size :: size_t
  count :: size_t

record ndb_stat =
  dbs :: "ndb_stat_counts list"
  common_kinds :: "ndb_stat_counts list"
  other_kinds :: ndb_stat_counts

text \<open>The three stores \<open>values[idx++] = ...\<close> for one entry.\<close>

definition stat_triple :: "ndb_stat_counts \<Rightarrow> jlong list" where
  "stat_triple c = [count c, key_size c, value_size c]"

text \<open>
  \<open>ndb_stat\<close> answers its return code and the statistics it has filled in. The arrays
  \<open>stat.dbs\<close> and \<open>stat.common_kinds\<close> are read at the indices below \<open>NDB_DBS\<close> and
  \<open>NDB_CKIND_COUNT\<close>.
\<close>

definition nativeGetStats ::
  "nostrdb_h \<Rightarrow> ('ndb \<Rightarrow> int \<times> ndb_stat) \<Rightarrow> 'ndb option \<Rightarrow> jlong list option" where
  "nativeGetStats h ndb_stat_fn ndb =
     (case ndb of None \<Rightarrow> None | Some e \<Rightarrow>
      (case ndb_stat_fn e of (rc, stat) \<Rightarrow>
        if rc \<noteq> 1 then None
        else Some (concat (map (\<lambda>i. stat_triple (dbs stat ! i)) [0..<NDB_DBS h])
                   @ concat (map (\<lambda>i. stat_triple (common_kinds stat ! i)) [0..<NDB_CKIND_COUNT h])
                   @ stat_triple (other_kinds stat))))"

definition nativeGetDbCount :: "nostrdb_h \<Rightarrow> int" where
  "nativeGetDbCount h = int (NDB_DBS h)"

definition nativeGetCommonKindCount :: "nostrdb_h \<Rightarrow> int" where
  "nativeGetCommonKindCount h = int (NDB_CKIND_COUNT h)"

text \<open>
  The indices are \<open>jint\<close>s that the code only compares: they are integers here.
  \<open>ndb_db_name\<close> is the engine's; it may answer NULL.
\<close>

definition nativeGetDbName :: "nostrdb_h \<Rightarrow> (int \<Rightarrow> string option) \<Rightarrow> int \<Rightarrow> string option" where
  "nativeGetDbName h ndb_db_name db_index =
     (if db_index < 0 \<or> db_index \<ge> int (NDB_DBS h) then None
      else (case ndb_db_name db_index of None \<Rightarrow> None | Some name \<Rightarrow> Some name))"

definition names :: "string list" where
  "names = [''Profile'', ''Text'', ''Contacts'', ''DM'', ''Delete'', ''Repost'',
            ''Reaction'', ''Zap'', ''Zap Request'', ''NWC Request'', ''NWC Response'',
            ''HTTP Auth'', ''List'', ''Long-form'', ''Status'']"

text \<open>
  A read of the local table \<open>names\<close> outside its fifteen rows is an error value of the
  model, so that the absence of such a read can be stated.
\<close>

datatype access_error = OutOfBounds

definition nativeGetCommonKindName :: "nostrdb_h \<Rightarrow> int \<Rightarrow> access_error + string option" where
  "nativeGetCommonKindName h kind_index =
     (if kind_index < 0 \<or> kind_index \<ge> int (NDB_CKIND_COUNT h) then Inr None
      else if nat kind_index < length names then Inr (Some (names ! nat kind_index))
      else Inl OutOfBounds)"

subsection \<open>nativeQuery (lines 397-434) and nativePollForNotes (lines 452-485)\<close>

text \<open>
  \<open>limit\<close> and \<open>max_notes\<close> are \<open>jint\<close>s, integers here. The argument \<open>results\<close> is
  the address that \<open>malloc(sizeof(struct ndb_query_result) * limit)\<close> answers: NULL (0)
  when \<open>malloc\<close> refuses the request, whose size grows with \<open>limit\<close> and wraps around to
  more than \<open>2^63\<close> bytes for a negative one. On NULL the bridge answers NULL without
  calling the engine. \<open>ndb_query\<close> answers its return code and the entries it has
  stored into the buffer, whose number it stores into \<open>count\<close> (\<open>cnt\<close> below, as
  \<open>count\<close> is a field of the statistics). Of \<open>struct ndb_query_result\<close> the bridge
  reads the field \<open>note_id\<close> only.
\<close>

record ndb_query_result =
  note_id :: "64 word"

definition nativeQuery ::
  "('txn \<Rightarrow> 'filter \<Rightarrow> int \<Rightarrow> int \<Rightarrow> int \<times> ndb_query_result list)
     \<Rightarrow> jlong \<Rightarrow> 'txn option \<Rightarrow> 'filter option \<Rightarrow> int \<Rightarrow> jlong list option" where
  "nativeQuery ndb_query results txn fltr limit =
     (case txn of None \<Rightarrow> None | Some t \<Rightarrow>
      (case fltr of None \<Rightarrow> None | Some f \<Rightarrow>
        if results = 0 then None
        else (case ndb_query t f 1 limit of (result, entries) \<Rightarrow>
                let cnt = int (length entries) in
                if result \<noteq> 1 \<or> cnt = 0 then None
                else Some (map (\<lambda>i. note_id (entries ! i)) [0..<nat cnt]))))"

text \<open>
  The argument \<open>note_keys\<close> is the address that \<open>malloc(sizeof(uint64_t) * max_notes)\<close>
  answers, NULL (0) when it refuses. \<open>ndb_poll_for_notes\<close> answers its return value and
  the keys it has stored into the buffer, and changes the engine. The array that the
  bridge returns has \<open>count\<close> elements, read from the buffer at the indices below
  \<open>count\<close>.
\<close>

definition nativePollForNotes ::
  "('ndb \<Rightarrow> 64 word \<Rightarrow> int \<Rightarrow> (int \<times> 64 word list) \<times> 'ndb)
     \<Rightarrow> jlong \<Rightarrow> 'ndb option \<Rightarrow> jlong \<Rightarrow> int \<Rightarrow> jlong list option \<times> 'ndb option" where
  "nativePollForNotes ndb_poll_for_notes note_keys ndb sub_id max_notes =
     (case ndb of None \<Rightarrow> (None, None) | Some e \<Rightarrow>
        if note_keys = 0 then (None, Some e)
        else (case ndb_poll_for_notes e sub_id max_notes of ((cnt, keys), e') \<Rightarrow>
                if cnt \<le> 0 then (None, Some e')
                else (Some (map (\<lambda>i. keys ! i) [0..<nat cnt]), Some e')))"

subsection \<open>Lifecycle: nativeBeginQuery, nativeEndQuery, nativeDestroy (lines 55-101)\<close>

text \<open>
  These three functions do not look inside their handles, which are addresses here. The
  state of the bridge is the list of the transaction objects it has allocated and not
  yet freed, the calls it has made into the engine, and the lines it has logged.
  \<open>nativeBeginQuery\<close> is given the address \<open>malloc\<close> returns and the return code of
  \<open>ndb_begin_query\<close>. \<open>nativeEndQuery\<close> and \<open>nativeDestroy\<close> return \<open>void\<close>.
\<close>

datatype ndb_call =
    Call_ndb_begin_query jlong jlong
  | Call_ndb_end_query jlong
  | Call_ndb_destroy jlong

record bridge_state =
  txns :: "jlong list"
  engine_calls :: "ndb_call list"
  logged :: "string list"

definition nativeBeginQuery ::
  "bridge_state \<Rightarrow> jlong \<Rightarrow> jlong \<Rightarrow> int \<Rightarrow> jlong \<times> bridge_state" where
  "nativeBeginQuery s ndb_ptr txn rc =
     (if ndb_ptr = 0 then (0, s)
      else if txn = 0 then (0, s)
      else if rc \<noteq> 1
        then (0, s\<lparr>engine_calls := engine_calls s @ [Call_ndb_begin_query ndb_ptr txn]\<rparr>)
      else (txn, s\<lparr>txns := txn # txns s,
                    engine_calls := engine_calls s @ [Call_ndb_begin_query ndb_ptr txn]\<rparr>))"

definition nativeEndQuery :: "bridge_state \<Rightarrow> jlong \<Rightarrow> bridge_state" where
  "nativeEndQuery s txn_ptr =
     (if txn_ptr \<noteq> 0
      then s\<lparr>txns := removeAll txn_ptr (txns s),
             engine_calls := engine_calls s @ [Call_ndb_end_query txn_ptr]\<rparr>
      else s)"

definition nativeDestroy :: "bridge_state \<Rightarrow> jlong \<Rightarrow> bridge_state" where
  "nativeDestroy s ndb_ptr =
     (if ndb_ptr \<noteq> 0
      then s\<lparr>engine_calls := engine_calls s @ [Call_ndb_destroy ndb_ptr],
             logged := logged s @ [''NostrDB destroyed'']\<rparr>
      else s)"

section \<open>The engine, from the specification\<close>

text \<open>
  The engine is not part of the source. What the specification says of its queries,
  lookups and subscriptions is modelled here, in the shape of the arguments that the
  bridge functions take, for the claims that are about the engine's answers.
\<close>

subsection \<open>Snapshots, filters and queries\<close>

text \<open>
  Modelled from the spec: the store as a snapshot sees it, missing from the source. A
  snapshot is the list of the stored records with their Record Keys; \<open>get_by_key\<close>
  and \<open>get_by_identifier\<close> answer a record or \<open>not_found\<close>.
\<close>

type_synonym snapshot = "(64 word \<times> ndb_note) list"

definition spec_get_note_by_key :: "snapshot \<Rightarrow> 64 word \<Rightarrow> ndb_note option" where
  "spec_get_note_by_key snap k = map_of snap k"

text \<open>
  Modelled from the spec: \<open>ndb_get_note_by_id\<close>, missing from the source. The lookup by
  identifier answers \<open>not_found\<close> or the record and its key. The binary layout of a
  record is opaque to the spec: \<open>packed\<close> gives the bytes of a record, which the lookup
  answers with their length.
\<close>

definition spec_get_note_by_id ::
  "(ndb_note \<Rightarrow> byte list) \<Rightarrow> snapshot \<Rightarrow> byte list
     \<Rightarrow> (byte list \<times> size_t \<times> 64 word) option" where
  "spec_get_note_by_id packed snap ident =
     (case find (\<lambda>row. ndb_note_id (snd row) = ident) snap of
        None \<Rightarrow> None
      | Some row \<Rightarrow> Some (packed (snd row), of_nat (length (packed (snd row))), fst row))"

text \<open>
  Modelled from the spec: the filter of the Filter and Query Engine, missing from the
  source. A filter is a sequence of field criteria; a criterion has a field type
  (identifiers, authors, kinds, timestamp bounds, or a named tag) and a list of
  elements (identifiers, integers, or strings). A record matches an element of a
  timestamp bound when its creation timestamp is on the right side of the bound, and
  an element of a named tag when one of its tags has that name and that value.
\<close>

datatype filter_field_type =
    Identifiers | Authors | Kinds | Since | Until | Named_tag char

datatype filter_element =
    Id_element "byte list" | Int_element "64 word" | Str_element string

record field_criterion =
  field_type :: filter_field_type
  elements :: "filter_element list"

record ndb_filter =
  criteria :: "field_criterion list"
  finalized :: bool

fun tag_value_is :: "filter_element \<Rightarrow> ndb_str \<Rightarrow> bool" where
  "tag_value_is (Id_element i) (NDB_PACKED_ID (Some j)) = (i = j)"
| "tag_value_is (Str_element s) (NDB_PACKED_STR (Some t)) = (s = t)"
| "tag_value_is _ _ = False"

fun tag_is :: "char \<Rightarrow> filter_element \<Rightarrow> ndb_str list \<Rightarrow> bool" where
  "tag_is c e (name # v # _) = (name = NDB_PACKED_STR (Some [c]) \<and> tag_value_is e v)"
| "tag_is c e _ = False"

fun element_matches :: "filter_field_type \<Rightarrow> filter_element \<Rightarrow> ndb_note \<Rightarrow> bool" where
  "element_matches Identifiers (Id_element i) n = (ndb_note_id n = i)"
| "element_matches Authors (Id_element a) n = (ndb_note_pubkey n = a)"
| "element_matches Kinds (Int_element k) n = (ucast (ndb_note_kind n) = k)"
| "element_matches Since (Int_element t) n = (t \<le> ucast (ndb_note_created_at n))"
| "element_matches Until (Int_element t) n = (ucast (ndb_note_created_at n) \<le> t)"
| "element_matches (Named_tag c) e n =
     (case ndb_note_tags n of None \<Rightarrow> False | Some tags \<Rightarrow> list_ex (tag_is c e) tags)"
| "element_matches _ _ _ = False"

text \<open>
  Modelled from the spec: the matching semantics, missing from the source. A record
  matches a filter if it matches every present field criterion, and it matches a
  criterion if it matches any of its listed elements.
\<close>

definition field_matches :: "field_criterion \<Rightarrow> ndb_note \<Rightarrow> bool" where
  "field_matches fc n = list_ex (\<lambda>e. element_matches (field_type fc) e n) (elements fc)"

definition filter_matches :: "ndb_filter \<Rightarrow> ndb_note \<Rightarrow> bool" where
  "filter_matches f n = list_all (\<lambda>fc. field_matches fc n) (criteria f)"

definition matching :: "ndb_filter \<Rightarrow> snapshot \<Rightarrow> snapshot" where
  "matching f snap = filter (\<lambda>row. filter_matches f (snd row)) snap"

text \<open>
  Modelled from the spec: the result ordering, missing from the source. Results are
  ordered by creation timestamp, most recent first, ties broken by descending Record
  Key. \<open>recency\<close> is the pair that is compared, lexicographically; \<open>not_older a b\<close>
  says that \<open>a\<close> may stand before \<open>b\<close> in a result.
\<close>

definition recency :: "64 word \<times> ndb_note \<Rightarrow> 32 word \<times> 64 word" where
  "recency row = (ndb_note_created_at (snd row), fst row)"

definition newest_first :: "snapshot \<Rightarrow> snapshot" where
  "newest_first rows = rev (sort_key recency rows)"

definition not_older :: "64 word \<times> ndb_note \<Rightarrow> 64 word \<times> ndb_note \<Rightarrow> bool" where
  "not_older a b =
     (ndb_note_created_at (snd b) < ndb_note_created_at (snd a) \<or>
      (ndb_note_created_at (snd b) = ndb_note_created_at (snd a) \<and> fst b \<le> fst a))"

text \<open>
  Modelled from the spec: \<open>ndb_query\<close>, missing from the source. A filter that is not
  finalized is refused (return code 0); otherwise the answer is the \<open>limit\<close> most
  recent matches, in the result ordering, with return code 1. The bridge always asks
  for one filter (\<open>num_filters = 1\<close>).
\<close>

definition spec_ndb_query ::
  "snapshot \<Rightarrow> ndb_filter \<Rightarrow> int \<Rightarrow> int \<Rightarrow> int \<times> ndb_query_result list" where
  "spec_ndb_query snap f num_filters limit =
     (if \<not> finalized f then (0, [])
      else (1, map (\<lambda>row. \<lparr>note_id = fst row\<rparr>)
                 (take (nat limit) (newest_first (matching f snap)))))"

text \<open>The keys of an answer of the bridge; \<open>null\<close> holds none.\<close>

definition keys_of :: "jlong list option \<Rightarrow> jlong list" where
  "keys_of r = (case r of None \<Rightarrow> [] | Some ks \<Rightarrow> ks)"

subsection \<open>Subscriptions\<close>

text \<open>
  Modelled from the spec: the Subscription/Notification System, missing from the source.
  The engine holds, for every live subscription identifier, the queue of its pending
  Record Keys, oldest first, and the next identifier to hand out. \<open>subscribe\<close> registers
  a filter under a fresh identifier, \<open>unsubscribe\<close> invalidates an identifier, and
  \<open>poll\<close> drains up to \<open>max_count\<close> pending keys. The filter plays no part in polling
  and is left out, as is the ingestion that fills the queues. Polling an identifier that is not live
  fails with \<open>UnknownSubscription\<close>; the C function has only its integer return value to
  say so, and \<open>unknown_rc\<close> is that value.
\<close>

record spec_engine =
  subscriptions :: "(64 word \<times> 64 word list) list"
  next_subscription :: "64 word"

definition spec_subscribe :: "spec_engine \<Rightarrow> 64 word \<times> spec_engine" where
  "spec_subscribe e =
     (next_subscription e,
      e\<lparr>subscriptions := (next_subscription e, []) # subscriptions e,
        next_subscription := next_subscription e + 1\<rparr>)"

definition spec_unsubscribe :: "spec_engine \<Rightarrow> 64 word \<Rightarrow> int \<times> spec_engine" where
  "spec_unsubscribe e sub_id =
     (case map_of (subscriptions e) sub_id of
        None \<Rightarrow> (0, e)
      | Some _ \<Rightarrow> (1, e\<lparr>subscriptions := filter (\<lambda>s. fst s \<noteq> sub_id) (subscriptions e)\<rparr>))"

definition spec_poll_for_notes ::
  "int \<Rightarrow> spec_engine \<Rightarrow> 64 word \<Rightarrow> int \<Rightarrow> (int \<times> 64 word list) \<times> spec_engine" where
  "spec_poll_for_notes unknown_rc e sub_id max_count =
     (case map_of (subscriptions e) sub_id of
        None \<Rightarrow> ((unknown_rc, []), e)
      | Some pending \<Rightarrow>
          ((int (length (take (nat max_count) pending)), take (nat max_count) pending),
           e\<lparr>subscriptions :=
               map (\<lambda>s. if fst s = sub_id then (fst s, drop (nat max_count) (snd s)) else s)
                 (subscriptions e)\<rparr>))"

section \<open>Concrete inputs\<close>

text \<open>A stored note with two tags, a note without tags, and a snapshot holding both.\<close>

definition example_id :: "byte list" where
  "example_id = [0x00, 0x01, 0x0a, 0x0f, 0x10, 0x7f, 0x80, 0xff,
                 0xde, 0xad, 0xbe, 0xef, 0x12, 0x34, 0x56, 0x78,
                 0x9a, 0xbc, 0xde, 0xf0, 0x11, 0x22, 0x33, 0x44,
                 0x55, 0x66, 0x77, 0x88, 0x99, 0xaa, 0xbb, 0xcc]"

definition example_note :: ndb_note where
  "example_note =
     \<lparr>ndb_note_id = example_id, ndb_note_pubkey = replicate 32 1, ndb_note_sig = replicate 64 2,
      ndb_note_created_at = 1700000000, ndb_note_kind = 1, ndb_note_content = Some ''hello'',
      ndb_note_tags = Some [[NDB_PACKED_STR (Some ''e''), NDB_PACKED_ID (Some example_id)],
                            [NDB_PACKED_STR (Some ''t''), NDB_PACKED_STR (Some ''nostr'')]]\<rparr>"

definition tagless_note :: ndb_note where
  "tagless_note =
     example_note\<lparr>ndb_note_id := rev example_id, ndb_note_tags := Some [],
                  ndb_note_created_at := 1700000005\<rparr>"

definition example_snapshot :: snapshot where
  "example_snapshot = [(1, example_note), (2, tagless_note)]"

text \<open>Statistics as \<open>ndb_stat\<close> may fill them in, for the documented header.\<close>

definition example_stat :: ndb_stat where
  "example_stat =
     \<lparr>dbs = replicate 16 \<lparr>key_size = 8, value_size = 100, count = 3\<rparr>,
      common_kinds = replicate 15 \<lparr>key_size = 0, value_size = 0, count = 1\<rparr>,
      other_kinds = \<lparr>key_size = 4, value_size = 5, count = 6\<rparr>\<rparr>"

text \<open>The bridge after one successful \<open>nativeBeginQuery\<close>: one snapshot is open.\<close>

definition idle_bridge :: bridge_state where
  "idle_bridge = \<lparr>txns = [], engine_calls = [], logged = []\<rparr>"

definition one_snapshot_open :: bridge_state where
  "one_snapshot_open = snd (nativeBeginQuery idle_bridge 0x1000 0x2000 1)"

text \<open>
  An engine in which \<open>subscribe\<close> has returned the identifiers 1 and 2 and identifier 2
  has been cancelled: 1 is live with nothing pending, 2 is cancelled, 7 was never
  returned.
\<close>

definition fresh_engine :: spec_engine where
  "fresh_engine = \<lparr>subscriptions = [], next_subscription = 1\<rparr>"

definition example_engine :: spec_engine where
  "example_engine =
     snd (spec_unsubscribe (snd (spec_subscribe (snd (spec_subscribe fresh_engine)))) 2)"

text \<open>Filters on the kind: no record of the snapshot has kind 7, both have kind 1.\<close>

definition kind7_filter :: ndb_filter where
  "kind7_filter =
     \<lparr>criteria = [\<lparr>field_type = Kinds, elements = [Int_element 7]\<rparr>], finalized = True\<rparr>"

definition kind1_filter :: ndb_filter where
  "kind1_filter =
     \<lparr>criteria = [\<lparr>field_type = Kinds, elements = [Int_element 0, Int_element 1]\<rparr>],
      finalized = True\<rparr>"

text \<open>
  The snapshot with a third record: of kind 7, with its own identifier, and more recent
  than the other two.
\<close>

definition kind7_note :: ndb_note where
  "kind7_note =
     example_note\<lparr>ndb_note_id := replicate 32 7, ndb_note_kind := 7, ndb_note_tags := Some [],
                  ndb_note_created_at := 1700000009\<rparr>"

definition timeline_snapshot :: snapshot where
  "timeline_snapshot = example_snapshot @ [(3, kind7_note)]"

section \<open>Properties\<close>

subsection \<open>json\_escape\_string\<close>

lemma in_loop_index:
  fixes ds di :: size_t
  assumes "2 \<le> unat ds" "di < ds - 2"
  shows "unat di + 2 < unat ds"
proof -
  have "(2::size_t) \<le> ds" using assms(1) by (simp add: word_le_nat_alt)
  then have "unat (ds - 2) = unat ds - 2" by (simp add: unat_sub)
  with assms show ?thesis by (simp add: word_less_nat_alt)
qed

lemma in_loop_add2:
  fixes ds di :: size_t
  assumes "2 \<le> unat ds" "di < ds - 2"
  shows "unat (di + 2) = unat di + 2" and "\<not> ds \<le> di + 2"
proof -
  have b: "unat di + 2 < unat ds" by (rule in_loop_index [OF assms])
  have "unat ds < 2 ^ 64" using unsigned_less [of ds] by simp
  with b have "unat di + unat (2::size_t) < 2 ^ LENGTH(64)" by simp
  then have "unat (di + 2) = unat di + unat (2::size_t)" by (simp only: unat_add_lem [THEN iffD1])
  then show u: "unat (di + 2) = unat di + 2" by simp
  with b show "\<not> ds \<le> di + 2" by (simp add: word_le_nat_alt)
qed

lemma in_loop_add1:
  fixes ds di :: size_t
  assumes "2 \<le> unat ds" "di < ds - 2"
  shows "unat (di + 1) = unat di + 1"
proof -
  have b: "unat di + 2 < unat ds" by (rule in_loop_index [OF assms])
  have "unat ds < 2 ^ 64" using unsigned_less [of ds] by simp
  with b have "unat di + unat (1::size_t) < 2 ^ LENGTH(64)" by simp
  then have "unat (di + 1) = unat di + unat (1::size_t)" by (simp only: unat_add_lem [THEN iffD1])
  then show ?thesis by simp
qed

lemma escape_loop_step:
  fixes ds di :: size_t
  assumes "2 \<le> unat ds" "di < ds - 2" "c \<noteq> NUL"
  shows "escape_loop ds (c # cs) di =
           json_escape_char c @ escape_loop ds cs (di + of_nat (length (json_escape_char c)))"
  using assms in_loop_add2(2) [OF assms(1,2)]
  by (simp add: json_escape_char_def)

lemma escape_loop_stop:
  "c = NUL \<or> \<not> di < ds - 2 \<Longrightarrow> escape_loop ds (c # cs) di = []"
  by auto

lemma json_escape_char_length: "length (json_escape_char c) \<le> 2"
  by (simp add: json_escape_char_def)

lemma in_loop_advance:
  fixes ds di :: size_t
  assumes "2 \<le> unat ds" "di < ds - 2"
  shows "unat (di + of_nat (length (json_escape_char c))) = unat di + length (json_escape_char c)"
  using in_loop_add2(1) [OF assms] in_loop_add1 [OF assms]
  by (simp add: json_escape_char_def)

lemma c_string_Cons: "c \<noteq> NUL \<Longrightarrow> c_string (c # cs) = c # c_string cs"
  by (simp add: c_string_def)

lemma c_string_NUL: "c_string (NUL # cs) = []"
  by (simp add: c_string_def)

lemma limit_reached:
  fixes ds di :: size_t
  assumes "2 \<le> unat ds" "\<not> di < ds - 2"
  shows "unat ds - 2 \<le> unat di"
proof -
  have "(2::size_t) \<le> ds" using assms(1) by (simp add: word_le_nat_alt)
  then have "unat (ds - 2) = unat ds - 2" by (simp add: unat_sub)
  with assms(2) show ?thesis by (simp add: word_less_nat_alt)
qed

lemma escape_loop_bound:
  "2 \<le> unat ds \<Longrightarrow> unat di + length (escape_loop ds cs di) \<le> max (unat di) (unat ds - 1)"
proof (induction cs arbitrary: di)
  case Nil
  then show ?case by simp
next
  case (Cons c cs)
  show ?case
  proof (cases "c = NUL \<or> \<not> di < ds - 2")
    case True
    then have "escape_loop ds (c # cs) di = []" by (rule escape_loop_stop)
    then show ?thesis by simp
  next
    case False
    then have run: "di < ds - 2" and c: "c \<noteq> NUL" by simp_all
    let ?di' = "di + of_nat (length (json_escape_char c))"
    have adv: "unat ?di' = unat di + length (json_escape_char c)"
      by (rule in_loop_advance [OF Cons.prems run])
    have "unat ?di' \<le> unat ds - 1"
      using adv in_loop_index [OF Cons.prems run] json_escape_char_length [of c] by simp
    with Cons.IH [OF Cons.prems, of ?di']
    have "unat ?di' + length (escape_loop ds cs ?di') \<le> unat ds - 1" by simp
    then have "unat di + (length (json_escape_char c) + length (escape_loop ds cs ?di'))
        \<le> unat ds - 1"
      by (simp only: adv add.assoc)
    then have "unat di + length (escape_loop ds (c # cs) di) \<le> unat ds - 1"
      by (simp only: escape_loop_step [OF Cons.prems run c] length_append)
    then show ?thesis by (rule max.coboundedI2)
  qed
qed

lemma escape_loop_prefix:
  "2 \<le> unat ds \<Longrightarrow>
     \<exists>k. k \<le> length (c_string cs) \<and>
       escape_loop ds cs di = concat (map json_escape_char (take k (c_string cs))) \<and>
       (\<forall>j. j < k \<longrightarrow>
          unat di + length (concat (map json_escape_char (take j (c_string cs)))) < unat ds - 2) \<and>
       (k = length (c_string cs) \<or> unat ds - 2 \<le> unat di + length (escape_loop ds cs di))"
proof (induction cs arbitrary: di)
  case Nil
  then show ?case by (simp add: c_string_def)
next
  case (Cons c cs)
  show ?case
  proof (cases "c = NUL")
    case True
    then show ?thesis by (simp add: c_string_NUL)
  next
    case c: False
    show ?thesis
    proof (cases "di < ds - 2")
      case False
      then have "escape_loop ds (c # cs) di = []" by simp
      moreover have "unat ds - 2 \<le> unat di" by (rule limit_reached [OF Cons.prems False])
      ultimately show ?thesis by (intro exI [of _ 0]) simp
    next
      case run: True
      let ?e = "json_escape_char c"
      let ?di' = "di + of_nat (length ?e)"
      have adv: "unat ?di' = unat di + length ?e"
        by (rule in_loop_advance [OF Cons.prems run])
      have below: "unat di < unat ds - 2"
        using in_loop_index [OF Cons.prems run] by simp
      from Cons.IH [OF Cons.prems, of ?di'] obtain k where
        k: "k \<le> length (c_string cs)"
        and out: "escape_loop ds cs ?di' = concat (map json_escape_char (take k (c_string cs)))"
        and before: "\<forall>j. j < k \<longrightarrow>
          unat ?di' + length (concat (map json_escape_char (take j (c_string cs)))) < unat ds - 2"
        and full: "k = length (c_string cs) \<or> unat ds - 2 \<le> unat ?di' + length (escape_loop ds cs ?di')"
        by blast
      have step: "escape_loop ds (c # cs) di = ?e @ escape_loop ds cs ?di'"
        by (rule escape_loop_step [OF Cons.prems run c])
      have "Suc k \<le> length (c_string (c # cs))" using k c by (simp add: c_string_Cons)
      moreover have "escape_loop ds (c # cs) di =
          concat (map json_escape_char (take (Suc k) (c_string (c # cs))))"
        using step out c by (simp add: c_string_Cons)
      moreover have "\<forall>j. j < Suc k \<longrightarrow>
          unat di + length (concat (map json_escape_char (take j (c_string (c # cs)))))
            < unat ds - 2"
      proof (intro allI impI)
        fix j assume j: "j < Suc k"
        show "unat di + length (concat (map json_escape_char (take j (c_string (c # cs)))))
            < unat ds - 2"
        proof (cases j)
          case 0
          with below show ?thesis by simp
        next
          case (Suc j')
          with j have "j' < k" by simp
          with before have "unat ?di' + length (concat (map json_escape_char (take j' (c_string cs))))
              < unat ds - 2" by blast
          then show ?thesis
            by (simp only: Suc c_string_Cons [OF c] take_Suc_Cons list.map concat.simps
                length_append adv add.assoc)
        qed
      qed
      moreover have "length (escape_loop ds (c # cs) di) =
          length ?e + length (escape_loop ds cs ?di')"
        by (simp only: step length_append)
      with full adv have "Suc k = length (c_string (c # cs)) \<or>
          unat ds - 2 \<le> unat di + length (escape_loop ds (c # cs) di)"
        by (simp only: c_string_Cons [OF c]) auto
      ultimately show ?thesis by blast
    qed
  qed
qed

lemma escape_loop_no_NUL: "NUL \<notin> set (escape_loop ds cs di)"
  by (induction ds cs di rule: escape_loop.induct)
    (auto simp: NUL_def backslash_def dquote_def)

text \<open>
  Claim C8, as the code has it. For every source string and every \<open>dest_size\<close> of at
  least 2, the output of \<open>json_escape_string\<close> is shorter than \<open>dest_size\<close> (so the
  terminating NUL is stored inside the buffer) and contains no NUL itself; a NULL source
  gives the empty string; and the output is the concatenation, in input order, of the
  escapes of the first \<open>k\<close> characters of the source: quote and backslash become
  backslash plus the character, newline, carriage return and tab become a backslash plus
  n, r, t, every other character below 0x20 is dropped, every other character is copied.
  A character is read only while fewer than \<open>dest_size - 2\<close> characters are out: the
  output is cut as soon as it holds \<open>dest_size - 2\<close> characters or more, whether or not
  the next character would still fit, and it is cut nowhere else.
\<close>

theorem json_escape_string_spec:
  assumes "2 \<le> unat dest_size"
  shows "length (json_escape_string dest_size src) < unat dest_size \<and>
         NUL \<notin> set (json_escape_string dest_size src) \<and>
         json_escape_string dest_size None = [] \<and>
         (\<exists>k. k \<le> length (c_string s) \<and>
            json_escape_string dest_size (Some s) =
              concat (map json_escape_char (take k (c_string s))) \<and>
            (\<forall>j. j < k \<longrightarrow>
               length (concat (map json_escape_char (take j (c_string s)))) < unat dest_size - 2) \<and>
            (k = length (c_string s) \<or>
             unat dest_size - 2 \<le> length (json_escape_string dest_size (Some s))))"
proof -
  have "length (json_escape_string dest_size src) < unat dest_size"
  proof (cases src)
    case None
    with assms show ?thesis by (simp add: json_escape_string_def)
  next
    case (Some t)
    from escape_loop_bound [OF assms, of 0 t] assms show ?thesis
      by (simp add: json_escape_string_def Some)
  qed
  moreover have "NUL \<notin> set (json_escape_string dest_size src)"
    by (cases src) (simp_all add: json_escape_string_def escape_loop_no_NUL)
  moreover have "json_escape_string dest_size None = []"
    by (simp add: json_escape_string_def)
  moreover from escape_loop_prefix [OF assms, of s 0]
  have "\<exists>k. k \<le> length (c_string s) \<and>
            json_escape_string dest_size (Some s) =
              concat (map json_escape_char (take k (c_string s))) \<and>
            (\<forall>j. j < k \<longrightarrow>
               length (concat (map json_escape_char (take j (c_string s)))) < unat dest_size - 2) \<and>
            (k = length (c_string s) \<or>
             unat dest_size - 2 \<le> length (json_escape_string dest_size (Some s)))"
    by (simp add: json_escape_string_def)
  ultimately show ?thesis by blast
qed

theorem json_escape_string_spec_witness:
  "length (json_escape_string 8 (Some [CHR ''a'', dquote, tab, CHR 0x01, CHR ''b'', CHR ''c'', CHR ''d''])) < unat (8::size_t) \<and>
   json_escape_string 8 (Some [CHR ''a'', dquote, tab, CHR 0x01, CHR ''b'', CHR ''c'', CHR ''d''])
     = [CHR ''a'', backslash, dquote, backslash, CHR ''t'', CHR ''b'']"
  using json_escape_string_spec [of 8 "Some [CHR ''a'', dquote, tab, CHR 0x01, CHR ''b'', CHR ''c'', CHR ''d'']"]
  by (simp add: json_escape_string_def dquote_def tab_def backslash_def NUL_def newline_def carriage_return_def)

theorem json_escape_string_early_cut_counterexample:
  "concat (map json_escape_char (c_string ''abcdefg'')) = ''abcdefg'' \<and>
   length ''abcdefg'' < unat (8 :: size_t) \<and>
   json_escape_string 8 (Some ''abcdefg'') = ''abcdef''"
  by (simp add: json_escape_string_def json_escape_char_def c_string_def dquote_def tab_def
      backslash_def NUL_def newline_def carriage_return_def)

subsection \<open>Index loops\<close>

lemma map_index_loop: "map (\<lambda>i. f (xs ! i)) [0..<length xs] = map f xs"
  by (rule nth_equalityI) simp_all

subsection \<open>nativeNoteTags\<close>

lemma tags_loop_fill:
  "i + length tags \<le> length result \<Longrightarrow> i + length tags \<le> n \<Longrightarrow>
     tags_loop tags i n result =
       take i result @ map (\<lambda>tag. Some (map tag_element tag)) tags
         @ drop (i + length tags) result"
proof (induction tags arbitrary: i result)
  case Nil
  then show ?case by simp
next
  case (Cons tag rest)
  let ?r = "result[i := Some (map tag_element tag)]"
  from Cons.prems have i: "i < length result" "i < n" by simp_all
  from Cons.prems have "Suc i + length rest \<le> length ?r" "Suc i + length rest \<le> n"
    by simp_all
  from Cons.IH [OF this]
  have "tags_loop rest (Suc i) n ?r =
      take (Suc i) ?r @ map (\<lambda>tag. Some (map tag_element tag)) rest
        @ drop (Suc i + length rest) ?r" .
  moreover have "take (Suc i) ?r = take i result @ [Some (map tag_element tag)]"
    using i(1) by (simp add: take_Suc_conv_app_nth)
  moreover have "drop (Suc i + length rest) ?r = drop (i + length (tag # rest)) result"
    by simp
  ultimately show ?case
    using i(2) by (simp add: ndb_tag_count_def map_index_loop)
qed

lemma tags_loop_all:
  "tags_loop tags 0 (length tags) (replicate (length tags) None) =
     map (\<lambda>tag. Some (map tag_element tag)) tags"
  using tags_loop_fill [of 0 tags "replicate (length tags) None" "length tags"] by simp

lemma hex_value_digit: "hex_value (hex_digit n) = n mod 16"
proof -
  define m where "m = n mod 16"
  have "m < 16" by (simp add: m_def)
  then have "m = 0 \<or> m = 1 \<or> m = 2 \<or> m = 3 \<or> m = 4 \<or> m = 5 \<or> m = 6 \<or> m = 7 \<or>
      m = 8 \<or> m = 9 \<or> m = 10 \<or> m = 11 \<or> m = 12 \<or> m = 13 \<or> m = 14 \<or> m = 15"
    by arith
  then have "hex_value (hex_digits ! m) = m"
    by (elim disjE) (simp_all add: hex_digits_def hex_value_def)
  then show ?thesis by (simp add: hex_digit_def m_def)
qed

lemma hex_digit_range: "hex_digit n \<in> set hex_digits"
proof -
  have "n mod 16 < length hex_digits" by (simp add: hex_digits_def)
  then show ?thesis unfolding hex_digit_def by (rule nth_mem)
qed

lemma unhex_sprintf: "unhex (sprintf_02x b @ cs) = b # unhex cs"
proof -
  have "unat b div 16 < 16" using unsigned_less [of b, where 'a = nat] by simp
  then have "(unat b div 16) mod 16 = unat b div 16" by simp
  then have "hex_value (hex_digit (unat b div 16)) * 16 + hex_value (hex_digit (unat b mod 16))
      = unat b"
    by (simp add: hex_value_digit)
  then show ?thesis by (simp add: sprintf_02x_def)
qed

lemma unhex_concat: "unhex (concat (map sprintf_02x bs)) = bs"
  by (induction bs) (simp_all add: unhex_sprintf)

lemma hex_of_id_map: "length ident = 32 \<Longrightarrow> hex_of_id ident = concat (map sprintf_02x ident)"
proof -
  assume l: "length ident = 32"
  have "map (\<lambda>j. sprintf_02x (ident ! j)) [0..<length ident] = map sprintf_02x ident"
    by (rule map_index_loop)
  with l show ?thesis by (simp add: hex_of_id_def)
qed

lemma hex_of_id_length: "length (hex_of_id ident) = 64"
  by (simp add: hex_of_id_def length_concat sprintf_02x_def comp_def sum_list_triv)

lemma hex_of_id_digits: "set (hex_of_id ident) \<subseteq> set hex_digits"
  by (auto simp: hex_of_id_def sprintf_02x_def hex_digit_range)

lemma nativeNoteTags_found:
  assumes "ndb_get_note_by_key t k = Some n" "ndb_note_tags n = Some tags" "tags \<noteq> []"
  shows "nativeNoteTags ndb_get_note_by_key (Some ndb) (Some t) k =
           Some (map (\<lambda>tag. Some (map tag_element tag)) tags)"
  using assms by (simp add: nativeNoteTags_def ndb_tags_count_def tags_loop_all)

lemma example_hex:
  "hex_of_id example_id = ''00010a0f107f80ffdeadbeef123456789abcdef0112233445566778899aabbcc''"
  by (simp add: hex_of_id_def example_id_def sprintf_02x_def hex_digit_def hex_digits_def upt_rec)

text \<open>
  Claim C5. For a stored note with at least one tag, \<open>nativeNoteTags\<close> answers one array
  per tag, in order, holding one string per element, in order: an inline string element
  is returned unchanged, and a packed identifier is returned as the hexadecimal rendering
  of its 32 bytes, computed from the bytes at the time of the read: 64 characters, all of
  them lower-case hexadecimal digits, two per byte, which read back as the identifier.
\<close>

theorem nativeNoteTags_elements:
  assumes "ndb_get_note_by_key t k = Some n" "ndb_note_tags n = Some tags" "tags \<noteq> []"
  shows "nativeNoteTags ndb_get_note_by_key (Some ndb) (Some t) k =
           Some (map (\<lambda>tag. Some (map tag_element tag)) tags) \<and>
         tag_element (NDB_PACKED_STR (Some str)) = Some str \<and>
         (length ident = 32 \<longrightarrow>
            tag_element (NDB_PACKED_ID (Some ident)) = Some (hex_of_id ident) \<and>
            length (hex_of_id ident) = 64 \<and>
            set (hex_of_id ident) \<subseteq> set hex_digits \<and>
            unhex (hex_of_id ident) = ident)"
proof -
  have "nativeNoteTags ndb_get_note_by_key (Some ndb) (Some t) k =
      Some (map (\<lambda>tag. Some (map tag_element tag)) tags)"
    using nativeNoteTags_found [of ndb_get_note_by_key t k n tags ndb] assms by simp
  moreover have "tag_element (NDB_PACKED_STR (Some str)) = Some str"
    by simp
  moreover have "tag_element (NDB_PACKED_ID (Some ident)) = Some (hex_of_id ident)"
    by simp
  moreover have "length ident = 32 \<longrightarrow> unhex (hex_of_id ident) = ident"
    by (simp add: hex_of_id_map unhex_concat)
  ultimately show ?thesis
    using hex_of_id_length [of ident] hex_of_id_digits [of ident] by blast
qed

theorem nativeNoteTags_elements_witness:
  "nativeNoteTags spec_get_note_by_key (Some ()) (Some example_snapshot) 1 =
     Some [Some [Some ''e'',
                 Some ''00010a0f107f80ffdeadbeef123456789abcdef0112233445566778899aabbcc''],
           Some [Some ''t'', Some ''nostr'']] \<and>
   length (hex_of_id example_id) = 64 \<and> unhex (hex_of_id example_id) = example_id"
proof -
  have k: "spec_get_note_by_key example_snapshot 1 = Some example_note"
    by (simp add: spec_get_note_by_key_def example_snapshot_def)
  have t: "ndb_note_tags example_note =
      Some [[NDB_PACKED_STR (Some ''e''), NDB_PACKED_ID (Some example_id)],
            [NDB_PACKED_STR (Some ''t''), NDB_PACKED_STR (Some ''nostr'')]]"
    by (simp add: example_note_def)
  have l: "length example_id = 32" by (simp add: example_id_def)
  from nativeNoteTags_elements [of spec_get_note_by_key example_snapshot 1 example_note
      "[[NDB_PACKED_STR (Some ''e''), NDB_PACKED_ID (Some example_id)],
        [NDB_PACKED_STR (Some ''t''), NDB_PACKED_STR (Some ''nostr'')]]" "()" "''x''" example_id]
    k t l
  show ?thesis by (simp add: example_hex)
qed

text \<open>
  Claim C10. For a stored note that has zero tags, \<open>nativeNoteTags\<close> answers \<open>null\<close>,
  which is also its answer for a note key that the engine does not find: the two cases
  cannot be told apart through this operation.
\<close>

theorem nativeNoteTags_tagless_is_null:
  "(ndb_get_note_by_key t k = Some n \<and> ndb_note_tags n = Some [] \<longrightarrow>
      nativeNoteTags ndb_get_note_by_key (Some ndb) (Some t) k = None) \<and>
   (ndb_get_note_by_key t k = None \<longrightarrow>
      nativeNoteTags ndb_get_note_by_key (Some ndb) (Some t) k = None)"
  by (simp add: nativeNoteTags_def ndb_tags_count_def)

theorem nativeNoteTags_tagless_is_null_witness:
  "spec_get_note_by_key example_snapshot 2 = Some tagless_note \<and>
   ndb_note_tags tagless_note = Some [] \<and>
   nativeNoteTags spec_get_note_by_key (Some ()) (Some example_snapshot) 2 = None \<and>
   spec_get_note_by_key example_snapshot 3 = None \<and>
   nativeNoteTags spec_get_note_by_key (Some ()) (Some example_snapshot) 3 = None"
proof -
  have a: "spec_get_note_by_key example_snapshot 2 = Some tagless_note"
    by (simp add: spec_get_note_by_key_def example_snapshot_def)
  have b: "ndb_note_tags tagless_note = Some []"
    by (simp add: tagless_note_def)
  have c: "spec_get_note_by_key example_snapshot 3 = None"
    by (simp add: spec_get_note_by_key_def example_snapshot_def)
  from nativeNoteTags_tagless_is_null [of spec_get_note_by_key example_snapshot 2 tagless_note "()"]
    nativeNoteTags_tagless_is_null [of spec_get_note_by_key example_snapshot 3 tagless_note "()"]
    a b c
  show ?thesis by simp
qed

subsection \<open>Lookups\<close>

text \<open>
  Claim C6. When the engine's lookup by identifier finds no note, \<open>nativeGetNoteById\<close>
  answers \<open>null\<close>, and when the lookup by key finds none, so does \<open>nativeNoteContent\<close>:
  both are total, with no other outcome on that path. With the store of the
  specification, this is the case of every identifier, and of every Record Key, that no
  record of the snapshot carries.
\<close>

theorem lookups_not_found:
  "(ndb_get_note_by_id t ident = None \<longrightarrow>
      nativeGetNoteById ndb_get_note_by_id ndb (Some t) ident = None) \<and>
   (ndb_get_note_by_key t k = None \<longrightarrow>
      nativeNoteContent ndb_get_note_by_key ndb (Some t) k = None) \<and>
   (ident \<notin> ndb_note_id ` snd ` set snap \<longrightarrow>
      nativeGetNoteById (spec_get_note_by_id packed) ndb (Some snap) ident = None) \<and>
   (k \<notin> fst ` set snap \<longrightarrow>
      nativeNoteContent spec_get_note_by_key ndb (Some snap) k = None)"
proof -
  have "spec_get_note_by_id packed snap ident = None"
    if "ident \<notin> ndb_note_id ` snd ` set snap"
  proof -
    from that have "\<not> (\<exists>row. row \<in> set snap \<and> ndb_note_id (snd row) = ident)" by force
    then have "find (\<lambda>row. ndb_note_id (snd row) = ident) snap = None"
      by (auto simp: find_None_iff)
    then show ?thesis by (simp add: spec_get_note_by_id_def)
  qed
  moreover have "k \<notin> fst ` set snap \<Longrightarrow> spec_get_note_by_key snap k = None"
    by (simp add: spec_get_note_by_key_def map_of_eq_None_iff)
  ultimately show ?thesis
    by (auto simp: nativeGetNoteById_def nativeNoteContent_def split: option.splits)
qed

theorem lookups_not_found_witness:
  "spec_get_note_by_id (\<lambda>n. ndb_note_id n) example_snapshot (replicate 32 7) = None \<and>
   nativeGetNoteById (spec_get_note_by_id (\<lambda>n. ndb_note_id n)) (Some ()) (Some example_snapshot)
     (replicate 32 7) = None \<and>
   spec_get_note_by_key example_snapshot 3 = None \<and>
   nativeNoteContent spec_get_note_by_key (Some ()) (Some example_snapshot) 3 = None \<and>
   nativeNoteContent spec_get_note_by_key (Some ()) (Some example_snapshot) 1 = Some ''hello''"
proof -
  have a: "spec_get_note_by_id (\<lambda>n. ndb_note_id n) example_snapshot (replicate 32 7) = None"
    by code_simp
  have b: "spec_get_note_by_key example_snapshot 3 = None"
    by (simp add: spec_get_note_by_key_def example_snapshot_def)
  have c: "nativeNoteContent spec_get_note_by_key (Some ()) (Some example_snapshot) 1 = Some ''hello''"
    by (simp add: nativeNoteContent_def spec_get_note_by_key_def example_snapshot_def
        example_note_def)
  from lookups_not_found [of "spec_get_note_by_id (\<lambda>n. ndb_note_id n)" example_snapshot
      "replicate 32 7" "Some ()" spec_get_note_by_key 3] a b c
  show ?thesis by simp
qed

subsection \<open>Statistics\<close>

lemma triples_length:
  "length (concat (map (\<lambda>i. stat_triple (f i)) [0..<n])) = 3 * n"
  by (induction n) (simp_all add: stat_triple_def)

lemma triples_nth:
  "i < n \<Longrightarrow> r < 3 \<Longrightarrow>
     concat (map (\<lambda>i. stat_triple (f i)) [0..<n]) ! (3 * i + r) = stat_triple (f i) ! r"
proof (induction n)
  case 0
  then show ?case by simp
next
  case (Suc n)
  show ?case
  proof (cases "i < n")
    case True
    then have "3 * i + r < 3 * n" using Suc.prems(2) by simp
    with Suc.IH [OF True Suc.prems(2)] show ?thesis
      by (simp add: nth_append triples_length)
  next
    case False
    with Suc.prems have "i = n" by simp
    then show ?thesis by (simp add: nth_append triples_length)
  qed
qed

lemma stat_triple_nth:
  "stat_triple c ! 0 = count c" "stat_triple c ! 1 = key_size c"
  "stat_triple c ! Suc 0 = key_size c" "stat_triple c ! 2 = value_size c"
  by (simp_all add: stat_triple_def)

lemma nativeGetStats_values:
  assumes "ndb_stat_fn e = (1, stat)"
  shows "nativeGetStats h ndb_stat_fn (Some e) =
     Some (concat (map (\<lambda>i. stat_triple (dbs stat ! i)) [0..<NDB_DBS h])
           @ concat (map (\<lambda>i. stat_triple (common_kinds stat ! i)) [0..<NDB_CKIND_COUNT h])
           @ stat_triple (other_kinds stat))"
  using assms by (simp add: nativeGetStats_def)

lemma nativeGetDbName_range:
  "nativeGetDbName h ndb_db_name i =
     (if 0 \<le> i \<and> i < nativeGetDbCount h then ndb_db_name i else None)"
  by (auto simp: nativeGetDbName_def nativeGetDbCount_def split: option.splits)

lemma nativeGetCommonKindName_range:
  "nativeGetCommonKindName h j =
     (if 0 \<le> j \<and> j < nativeGetCommonKindCount h
      then (if j < 15 then Inr (Some (names ! nat j)) else Inl OutOfBounds)
      else Inr None)"
  by (auto simp: nativeGetCommonKindName_def nativeGetCommonKindCount_def names_def)

text \<open>
  Claim C7. Every successful call of \<open>nativeGetStats\<close> (a live engine handle, and
  \<open>ndb_stat\<close> returning 1) answers an array of exactly
  \<open>(nativeGetDbCount + nativeGetCommonKindCount + 1) * 3\<close> values: the triple (count,
  key size, value size) of each physical table in index order, then the triple of each
  well-known kind in index order, then the one triple of the other kinds.
\<close>

theorem nativeGetStats_shape:
  assumes "ndb_stat_fn e = (1, stat)"
  shows "\<exists>values. nativeGetStats h ndb_stat_fn (Some e) = Some values \<and>
     int (length values) = (nativeGetDbCount h + nativeGetCommonKindCount h + 1) * 3 \<and>
     (\<forall>i. i < NDB_DBS h \<longrightarrow>
        values ! (3 * i) = count (dbs stat ! i) \<and>
        values ! (3 * i + 1) = key_size (dbs stat ! i) \<and>
        values ! (3 * i + 2) = value_size (dbs stat ! i)) \<and>
     (\<forall>j. j < NDB_CKIND_COUNT h \<longrightarrow>
        values ! (3 * NDB_DBS h + 3 * j) = count (common_kinds stat ! j) \<and>
        values ! (3 * NDB_DBS h + 3 * j + 1) = key_size (common_kinds stat ! j) \<and>
        values ! (3 * NDB_DBS h + 3 * j + 2) = value_size (common_kinds stat ! j)) \<and>
     values ! (3 * (NDB_DBS h + NDB_CKIND_COUNT h)) = count (other_kinds stat) \<and>
     values ! (3 * (NDB_DBS h + NDB_CKIND_COUNT h) + 1) = key_size (other_kinds stat) \<and>
     values ! (3 * (NDB_DBS h + NDB_CKIND_COUNT h) + 2) = value_size (other_kinds stat)"
proof -
  let ?D = "concat (map (\<lambda>i. stat_triple (dbs stat ! i)) [0..<NDB_DBS h])"
  let ?K = "concat (map (\<lambda>i. stat_triple (common_kinds stat ! i)) [0..<NDB_CKIND_COUNT h])"
  let ?O = "stat_triple (other_kinds stat)"
  let ?V = "?D @ ?K @ ?O"
  have lD: "length ?D = 3 * NDB_DBS h" by (rule triples_length)
  have lK: "length ?K = 3 * NDB_CKIND_COUNT h" by (rule triples_length)
  have v: "nativeGetStats h ndb_stat_fn (Some e) = Some ?V"
    using assms by (rule nativeGetStats_values [of ndb_stat_fn e stat h])
  have lO: "length ?O = 3" by (simp add: stat_triple_def)
  have "length ?V = 3 * NDB_DBS h + (3 * NDB_CKIND_COUNT h + 3)"
    unfolding length_append lD lK lO ..
  then have len: "int (length ?V) = (nativeGetDbCount h + nativeGetCommonKindCount h + 1) * 3"
    by (simp only: nativeGetDbCount_def nativeGetCommonKindCount_def) simp
  have d: "?V ! (3 * i + r) = stat_triple (dbs stat ! i) ! r" if "i < NDB_DBS h" "r < 3" for i r
  proof -
    from that have "3 * i + r < length ?D" by (simp add: lD)
    then have "?V ! (3 * i + r) = ?D ! (3 * i + r)" by (simp add: nth_append)
    also have "\<dots> = stat_triple (dbs stat ! i) ! r" by (rule triples_nth [OF that])
    finally show ?thesis .
  qed
  have k: "?V ! (3 * NDB_DBS h + 3 * j + r) = stat_triple (common_kinds stat ! j) ! r"
    if "j < NDB_CKIND_COUNT h" "r < 3" for j r
  proof -
    from that have "3 * j + r < length ?K" by (simp add: lK)
    then have "?V ! (length ?D + (3 * j + r)) = ?K ! (3 * j + r)"
      by (simp only: nth_append_length_plus) (simp add: nth_append)
    also have "\<dots> = stat_triple (common_kinds stat ! j) ! r" by (rule triples_nth [OF that])
    finally show ?thesis by (simp add: lD add.assoc)
  qed
  have o: "?V ! (3 * (NDB_DBS h + NDB_CKIND_COUNT h) + r) = ?O ! r" for r
  proof -
    have "?V ! (length ?D + (length ?K + r)) = ?O ! r"
      by (simp only: nth_append_length_plus)
    then show ?thesis by (simp add: lD lK add.assoc distrib_left)
  qed
  have "\<forall>i. i < NDB_DBS h \<longrightarrow>
        ?V ! (3 * i) = count (dbs stat ! i) \<and>
        ?V ! (3 * i + 1) = key_size (dbs stat ! i) \<and>
        ?V ! (3 * i + 2) = value_size (dbs stat ! i)"
    using d [of _ 0] d [of _ 1] d [of _ 2] by (simp add: stat_triple_nth)
  moreover have "\<forall>j. j < NDB_CKIND_COUNT h \<longrightarrow>
        ?V ! (3 * NDB_DBS h + 3 * j) = count (common_kinds stat ! j) \<and>
        ?V ! (3 * NDB_DBS h + 3 * j + 1) = key_size (common_kinds stat ! j) \<and>
        ?V ! (3 * NDB_DBS h + 3 * j + 2) = value_size (common_kinds stat ! j)"
    using k [of _ 0] k [of _ 1] k [of _ 2] by (simp add: stat_triple_nth)
  moreover have "?V ! (3 * (NDB_DBS h + NDB_CKIND_COUNT h)) = count (other_kinds stat)"
    using o [of 0] by (simp add: stat_triple_nth)
  moreover have "?V ! (3 * (NDB_DBS h + NDB_CKIND_COUNT h) + 1) = key_size (other_kinds stat)"
    using o [of 1] by (simp add: stat_triple_nth)
  moreover have "?V ! (3 * (NDB_DBS h + NDB_CKIND_COUNT h) + 2) = value_size (other_kinds stat)"
    using o [of 2] by (simp add: stat_triple_nth)
  ultimately show ?thesis using v len by blast
qed

theorem nativeGetStats_shape_witness:
  "\<exists>values. nativeGetStats documented_header (\<lambda>e. (1, example_stat)) (Some ()) = Some values \<and>
     length values = 96 \<and> values ! 93 = 6 \<and> values ! 94 = 4 \<and> values ! 95 = 5"
proof -
  have "(\<lambda>e. (1::int, example_stat)) () = (1, example_stat)" by simp
  from nativeGetStats_shape [of "\<lambda>e. (1, example_stat)" "()" example_stat documented_header, OF this]
  show ?thesis
    by (simp add: documented_header_def nativeGetDbCount_def nativeGetCommonKindCount_def
        example_stat_def) blast
qed

text \<open>
  Claim C9, as the code has it. Both name lookups answer \<open>null\<close> for every index below 0
  or not below the count that \<open>nativeGetDbCount\<close>, respectively
  \<open>nativeGetCommonKindCount\<close>, reports. For an index in range, the database-name lookup
  answers what the engine's \<open>ndb_db_name\<close> answers, which is \<open>null\<close> when that is NULL.
  The kind-name lookup reads its table of fifteen rows at the index: as long as
  \<open>NDB_CKIND_COUNT\<close> is at most 15 it never reads outside the table and answers a name
  exactly for the indices in range; an index from 15 on that is below a larger
  \<open>NDB_CKIND_COUNT\<close> is read outside the table.
\<close>

theorem name_lookups_by_index:
  "nativeGetDbName h ndb_db_name i =
     (if 0 \<le> i \<and> i < nativeGetDbCount h then ndb_db_name i else None) \<and>
   nativeGetCommonKindName h j =
     (if 0 \<le> j \<and> j < nativeGetCommonKindCount h
      then (if j < 15 then Inr (Some (names ! nat j)) else Inl OutOfBounds)
      else Inr None) \<and>
   (nativeGetCommonKindCount h \<le> 15 \<longrightarrow>
      nativeGetCommonKindName h j \<noteq> Inl OutOfBounds \<and>
      ((\<exists>name. nativeGetCommonKindName h j = Inr (Some name)) \<longleftrightarrow>
         0 \<le> j \<and> j < nativeGetCommonKindCount h))"
proof -
  have "nativeGetCommonKindCount h \<le> 15 \<longrightarrow>
      nativeGetCommonKindName h j \<noteq> Inl OutOfBounds \<and>
      ((\<exists>name. nativeGetCommonKindName h j = Inr (Some name)) \<longleftrightarrow>
         0 \<le> j \<and> j < nativeGetCommonKindCount h)"
    by (simp add: nativeGetCommonKindName_range)
  then show ?thesis
    using nativeGetDbName_range [of h ndb_db_name i] nativeGetCommonKindName_range [of h j]
    by blast
qed

theorem name_lookups_by_index_witness:
  "nativeGetCommonKindCount documented_header \<le> 15 \<and>
   nativeGetDbName documented_header (\<lambda>i. Some ''note'') 15 = Some ''note'' \<and>
   nativeGetDbName documented_header (\<lambda>i. Some ''note'') 16 = None \<and>
   nativeGetDbName documented_header (\<lambda>i. Some ''note'') (- 1) = None \<and>
   nativeGetCommonKindName documented_header 14 = Inr (Some ''Status'') \<and>
   nativeGetCommonKindName documented_header 15 = Inr None \<and>
   nativeGetCommonKindName documented_header (- 1) = Inr None"
proof -
  have a: "nativeGetCommonKindCount documented_header \<le> 15"
    by (simp add: documented_header_def nativeGetCommonKindCount_def)
  from name_lookups_by_index [of documented_header "\<lambda>i. Some ''note''" 15 14]
    name_lookups_by_index [of documented_header "\<lambda>i. Some ''note''" 16 15]
    name_lookups_by_index [of documented_header "\<lambda>i. Some ''note''" "- 1" "- 1"]
  show ?thesis
    by (simp add: a documented_header_def names_def nativeGetDbCount_def
        nativeGetCommonKindCount_def)
qed

theorem db_name_null_in_range_counterexample:
  "(0::int) \<le> 0 \<and> 0 < nativeGetDbCount documented_header \<and>
   nativeGetDbName documented_header (\<lambda>i. None) 0 = None \<and>
   (0::int) \<le> 15 \<and> 15 < nativeGetCommonKindCount \<lparr>NDB_DBS = 16, NDB_CKIND_COUNT = 16\<rparr> \<and>
   nativeGetCommonKindName \<lparr>NDB_DBS = 16, NDB_CKIND_COUNT = 16\<rparr> 15 = Inl OutOfBounds"
  by (simp add: nativeGetDbName_def nativeGetDbCount_def documented_header_def
      nativeGetCommonKindName_def nativeGetCommonKindCount_def names_def)

subsection \<open>Closing the engine\<close>

lemma one_snapshot_open_eq:
  "one_snapshot_open =
     \<lparr>txns = [0x2000], engine_calls = [Call_ndb_begin_query 0x1000 0x2000], logged = []\<rparr>"
  by (simp add: one_snapshot_open_def nativeBeginQuery_def idle_bridge_def)

text \<open>
  Claim C2, as the code has it. \<open>nativeDestroy\<close> on a non-NULL handle calls
  \<open>ndb_destroy\<close> and logs that the engine is destroyed, whether or not transaction
  objects are still open; it leaves the open transaction objects as they are; it
  returns nothing, so no outcome such as \<open>Busy\<close> reaches the caller. On a NULL handle it
  does nothing.
\<close>

theorem nativeDestroy_forwards:
  "(ndb_ptr \<noteq> 0 \<longrightarrow>
      engine_calls (nativeDestroy s ndb_ptr) = engine_calls s @ [Call_ndb_destroy ndb_ptr] \<and>
      logged (nativeDestroy s ndb_ptr) = logged s @ [''NostrDB destroyed'']) \<and>
   txns (nativeDestroy s ndb_ptr) = txns s \<and>
   nativeDestroy s 0 = s"
  by (simp add: nativeDestroy_def)

theorem nativeDestroy_forwards_witness:
  "engine_calls (nativeDestroy one_snapshot_open 0x1000) =
     [Call_ndb_begin_query 0x1000 0x2000, Call_ndb_destroy 0x1000] \<and>
   logged (nativeDestroy one_snapshot_open 0x1000) = [''NostrDB destroyed''] \<and>
   txns (nativeDestroy one_snapshot_open 0x1000) = [0x2000]"
  using nativeDestroy_forwards [of "0x1000" one_snapshot_open]
  by (simp add: one_snapshot_open_eq)

theorem close_with_open_snapshot_counterexample:
  "txns one_snapshot_open = [0x2000] \<and>
   engine_calls (nativeDestroy one_snapshot_open 0x1000) =
     engine_calls one_snapshot_open @ [Call_ndb_destroy 0x1000] \<and>
   logged (nativeDestroy one_snapshot_open 0x1000) = [''NostrDB destroyed''] \<and>
   logged (nativeDestroy (nativeEndQuery one_snapshot_open 0x2000) 0x1000) =
     [''NostrDB destroyed'']"
  by (simp add: one_snapshot_open_eq nativeDestroy_def nativeEndQuery_def)

subsection \<open>What nativeQuery and nativePollForNotes answer\<close>

lemma nativeQuery_answer:
  "nativeQuery ndb_query results (Some t) (Some f) limit =
     (if results \<noteq> 0 \<and> fst (ndb_query t f 1 limit) = 1 \<and> snd (ndb_query t f 1 limit) \<noteq> []
      then Some (map note_id (snd (ndb_query t f 1 limit))) else None)"
proof (cases "ndb_query t f 1 limit")
  case (Pair result entries)
  have "map (\<lambda>i. note_id (entries ! i)) [0..<length entries] = map note_id entries"
    by (rule map_index_loop)
  with Pair show ?thesis by (simp add: nativeQuery_def)
qed

lemma nativeQuery_null_handle:
  "nativeQuery ndb_query results None fl limit = None"
  "nativeQuery ndb_query results tx None limit = None"
  by (simp_all add: nativeQuery_def split: option.splits)

lemma nativeQuery_never_empty: "nativeQuery ndb_query results tx fl limit \<noteq> Some []"
proof (cases tx)
  case None
  then show ?thesis by (simp add: nativeQuery_null_handle)
next
  case tx: (Some t)
  show ?thesis
  proof (cases fl)
    case None
    then show ?thesis by (simp add: nativeQuery_null_handle)
  next
    case (Some f)
    show ?thesis unfolding tx Some nativeQuery_answer by simp
  qed
qed

lemma nativePollForNotes_answer:
  "fst (nativePollForNotes ndb_poll_for_notes note_keys (Some e) sub_id max_notes) =
     (if note_keys \<noteq> 0 \<and> 0 < fst (fst (ndb_poll_for_notes e sub_id max_notes))
      then Some (map (\<lambda>i. snd (fst (ndb_poll_for_notes e sub_id max_notes)) ! i)
                   [0..<nat (fst (fst (ndb_poll_for_notes e sub_id max_notes)))])
      else None)"
  by (auto simp: nativePollForNotes_def split: prod.splits)

lemma nativePollForNotes_null_handle:
  "fst (nativePollForNotes ndb_poll_for_notes note_keys None sub_id max_notes) = None"
  by (simp add: nativePollForNotes_def)

lemma nativePollForNotes_never_empty:
  "fst (nativePollForNotes ndb_poll_for_notes note_keys nd sub_id max_notes) \<noteq> Some []"
proof (cases nd)
  case None
  then show ?thesis by (simp add: nativePollForNotes_null_handle)
next
  case (Some e)
  show ?thesis unfolding Some nativePollForNotes_answer by simp
qed

lemma nativePollForNotes_no_notes:
  "fst (fst (ndb_poll_for_notes e sub_id max_notes)) \<le> 0 \<Longrightarrow>
     fst (nativePollForNotes ndb_poll_for_notes note_keys (Some e) sub_id max_notes) = None"
  by (simp add: nativePollForNotes_answer)

lemma spec_poll_unknown:
  "map_of (subscriptions e) sub_id = None \<Longrightarrow>
     fst (spec_poll_for_notes unknown_rc e sub_id max_notes) = (unknown_rc, [])"
  by (simp add: spec_poll_for_notes_def)

lemma spec_poll_nothing_pending:
  "map_of (subscriptions e) sub_id = Some [] \<Longrightarrow>
     fst (spec_poll_for_notes unknown_rc e sub_id max_notes) = (0, [])"
  by (simp add: spec_poll_for_notes_def)

lemma example_engine_eq:
  "example_engine = \<lparr>subscriptions = [(1, [])], next_subscription = 3\<rparr>"
  by (simp add: example_engine_def fresh_engine_def spec_subscribe_def spec_unsubscribe_def)

lemma matching_none:
  "\<forall>row. row \<in> set snap \<longrightarrow> \<not> filter_matches f (snd row) \<Longrightarrow> matching f snap = []"
  by (auto simp: matching_def filter_empty_conv)

lemma newest_first_Nil: "newest_first [] = []"
  by (simp add: newest_first_def)

lemma kind7_no_match:
  "\<forall>row. row \<in> set example_snapshot \<longrightarrow> \<not> filter_matches kind7_filter (snd row)"
  by (simp add: example_snapshot_def filter_matches_def field_matches_def kind7_filter_def
      example_note_def tagless_note_def)

text \<open>
  Claim C3, as the code has it. Polling a subscription identifier that is not live (never
  returned by \<open>subscribe\<close>, or cancelled) answers \<open>null\<close>, which is also the answer for a
  live subscription with nothing pending: whatever non-positive value the engine's poll
  returns, for whatever reason, the bridge turns it into \<open>null\<close>, whether or not its
  buffer was allocated.
\<close>

theorem nativePollForNotes_unknown_is_null:
  assumes "unknown_rc \<le> 0"
    and "map_of (subscriptions e) unknown = None"
    and "map_of (subscriptions e) live = Some []"
  shows "fst (nativePollForNotes (spec_poll_for_notes unknown_rc) note_keys (Some e)
                unknown max_notes) = None \<and>
         fst (nativePollForNotes (spec_poll_for_notes unknown_rc) note_keys (Some e)
                live max_notes) = None \<and>
         (fst (fst (ndb_poll_for_notes e' sub_id max_notes)) \<le> 0 \<longrightarrow>
            fst (nativePollForNotes ndb_poll_for_notes note_keys (Some e') sub_id max_notes)
              = None)"
proof -
  have "fst (fst (spec_poll_for_notes unknown_rc e unknown max_notes)) \<le> 0"
    using assms(1) by (simp add: spec_poll_unknown [OF assms(2)])
  then have "fst (nativePollForNotes (spec_poll_for_notes unknown_rc) note_keys (Some e)
      unknown max_notes) = None"
    by (rule nativePollForNotes_no_notes)
  moreover have "fst (fst (spec_poll_for_notes unknown_rc e live max_notes)) \<le> 0"
    by (simp add: spec_poll_nothing_pending [OF assms(3)])
  then have "fst (nativePollForNotes (spec_poll_for_notes unknown_rc) note_keys (Some e)
      live max_notes) = None"
    by (rule nativePollForNotes_no_notes)
  ultimately show ?thesis
    using nativePollForNotes_no_notes [of ndb_poll_for_notes e' sub_id max_notes note_keys]
    by blast
qed

theorem nativePollForNotes_unknown_is_null_witness:
  "fst (nativePollForNotes (spec_poll_for_notes (- 1)) 0x4000 (Some example_engine) 7 10) = None \<and>
   fst (nativePollForNotes (spec_poll_for_notes (- 1)) 0x4000 (Some example_engine) 1 10) = None"
proof -
  have a: "(- 1 :: int) \<le> 0" by simp
  have b: "map_of (subscriptions example_engine) 7 = None" by (simp add: example_engine_eq)
  have c: "map_of (subscriptions example_engine) 1 = Some []" by (simp add: example_engine_eq)
  from nativePollForNotes_unknown_is_null [OF a b c,
      where note_keys = "0x4000" and max_notes = 10
        and ndb_poll_for_notes = "spec_poll_for_notes 0" and e' = example_engine and sub_id = 1]
  show ?thesis by simp
qed

theorem poll_unknown_subscription_counterexample:
  "fst (spec_subscribe fresh_engine) = 1 \<and>
   fst (spec_subscribe (snd (spec_subscribe fresh_engine))) = 2 \<and>
   nativePollForNotes (spec_poll_for_notes 0) 0x4000 (Some example_engine) 7 10 =
     nativePollForNotes (spec_poll_for_notes 0) 0x4000 (Some example_engine) 1 10 \<and>
   nativePollForNotes (spec_poll_for_notes 0) 0x4000 (Some example_engine) 2 10 =
     nativePollForNotes (spec_poll_for_notes 0) 0x4000 (Some example_engine) 1 10 \<and>
   fst (nativePollForNotes (spec_poll_for_notes (- 1)) 0x4000 (Some example_engine) 7 10) =
     fst (nativePollForNotes (spec_poll_for_notes (- 1)) 0x4000 (Some example_engine) 1 10) \<and>
   fst (nativePollForNotes (spec_poll_for_notes 0) 0x4000 (Some example_engine) 7 10) = None"
  by (simp add: example_engine_eq nativePollForNotes_def spec_poll_for_notes_def
      spec_subscribe_def fresh_engine_def)

text \<open>
  Claim C4, as the code has it. \<open>nativeQuery\<close> answers an array exactly when its buffer
  was allocated, the engine returned 1 and it stored at least one entry; then the array
  holds the keys of the entries, in order. \<open>nativePollForNotes\<close> answers an array
  exactly when its buffer was allocated and the engine returned a positive count; then
  the array holds that many keys. In every other case (no entry stored, a count of 0, an
  engine error, a refused allocation, a NULL handle) the answer is \<open>null\<close>, and the
  answer is never an empty array. With the engine of the specification, a query that no
  record matches and a poll of a live subscription with nothing pending answer \<open>null\<close>.
\<close>

theorem no_matches_is_null:
  "nativeQuery ndb_query results (Some t) (Some f) limit =
     (if results \<noteq> 0 \<and> fst (ndb_query t f 1 limit) = 1 \<and> snd (ndb_query t f 1 limit) \<noteq> []
      then Some (map note_id (snd (ndb_query t f 1 limit))) else None) \<and>
   fst (nativePollForNotes ndb_poll_for_notes note_keys (Some e) sub_id max_notes) =
     (if note_keys \<noteq> 0 \<and> 0 < fst (fst (ndb_poll_for_notes e sub_id max_notes))
      then Some (map (\<lambda>i. snd (fst (ndb_poll_for_notes e sub_id max_notes)) ! i)
                   [0..<nat (fst (fst (ndb_poll_for_notes e sub_id max_notes)))])
      else None) \<and>
   nativeQuery ndb_query results None fl limit = None \<and>
   nativeQuery ndb_query results tx None limit = None \<and>
   fst (nativePollForNotes ndb_poll_for_notes note_keys None sub_id max_notes) = None \<and>
   nativeQuery ndb_query results tx fl limit \<noteq> Some [] \<and>
   fst (nativePollForNotes ndb_poll_for_notes note_keys nd sub_id max_notes) \<noteq> Some [] \<and>
   ((\<forall>row. row \<in> set snap \<longrightarrow> \<not> filter_matches ft (snd row)) \<longrightarrow>
      nativeQuery spec_ndb_query results (Some snap) (Some ft) limit = None) \<and>
   (map_of (subscriptions se) live = Some [] \<longrightarrow>
      fst (nativePollForNotes (spec_poll_for_notes unknown_rc) note_keys (Some se)
             live max_notes) = None)"
proof -
  have "snd (spec_ndb_query snap ft 1 limit) = []"
    if "\<forall>row. row \<in> set snap \<longrightarrow> \<not> filter_matches ft (snd row)"
    using matching_none [OF that] by (simp add: spec_ndb_query_def newest_first_Nil)
  then have s: "(\<forall>row. row \<in> set snap \<longrightarrow> \<not> filter_matches ft (snd row)) \<longrightarrow>
      nativeQuery spec_ndb_query results (Some snap) (Some ft) limit = None"
    by (simp add: nativeQuery_answer)
  have p: "map_of (subscriptions se) live = Some [] \<longrightarrow>
      fst (nativePollForNotes (spec_poll_for_notes unknown_rc) note_keys (Some se)
             live max_notes) = None"
    by (simp add: nativePollForNotes_answer spec_poll_nothing_pending)
  show ?thesis
    using s p nativeQuery_answer [of ndb_query results t f limit]
      nativePollForNotes_answer [of ndb_poll_for_notes note_keys e sub_id max_notes]
      nativeQuery_null_handle [of ndb_query results _ limit]
      nativePollForNotes_null_handle [of ndb_poll_for_notes note_keys sub_id max_notes]
      nativeQuery_never_empty [of ndb_query results tx fl limit]
      nativePollForNotes_never_empty [of ndb_poll_for_notes note_keys nd sub_id max_notes]
    by blast
qed

theorem no_matches_is_null_witness:
  "nativeQuery spec_ndb_query 0x3000 (Some example_snapshot) (Some kind7_filter) 10 = None \<and>
   fst (nativePollForNotes (spec_poll_for_notes 0) 0x4000 (Some example_engine) 1 10) = None \<and>
   nativeQuery (\<lambda>t f n l. (0, [\<lparr>note_id = 5\<rparr>, \<lparr>note_id = 6\<rparr>])) 0x3000 (Some ()) (Some ()) 10
     = None \<and>
   nativeQuery (\<lambda>t f n l. (1, [\<lparr>note_id = 5\<rparr>, \<lparr>note_id = 6\<rparr>])) 0x3000 (Some ()) (Some ()) 10
     = Some [5, 6] \<and>
   nativeQuery (\<lambda>t f n l. (1, [\<lparr>note_id = 5\<rparr>, \<lparr>note_id = 6\<rparr>])) 0 (Some ()) (Some ()) 10
     = None \<and>
   fst (nativePollForNotes (\<lambda>e s m. ((- 1, [5, 6]), e)) 0x4000 (Some ()) 1 10) = None \<and>
   fst (nativePollForNotes (\<lambda>e s m. ((2, [5, 6]), e)) 0x4000 (Some ()) 1 10) = Some [5, 6]"
proof -
  have c: "map_of (subscriptions example_engine) 1 = Some []" by (simp add: example_engine_eq)
  have r: "(0x3000 :: jlong) \<noteq> 0" "(0x4000 :: jlong) \<noteq> 0" by simp_all
  have u: "[0..<2] = [0, Suc 0]" by (simp add: upt_rec)
  from no_matches_is_null [where results = "0x3000" and note_keys = "0x4000" and limit = 10
      and max_notes = 10 and snap = example_snapshot and ft = kind7_filter
      and se = example_engine and live = 1 and unknown_rc = 0
      and ndb_query = "\<lambda>t f n l. (0, [\<lparr>note_id = 5\<rparr>, \<lparr>note_id = 6\<rparr>])" and t = "()" and f = "()"
      and ndb_poll_for_notes = "\<lambda>e s m. ((- 1, [5, 6]), e)" and e = "()" and sub_id = 1]
    no_matches_is_null [where results = "0x3000" and note_keys = "0x4000" and limit = 10
      and max_notes = 10
      and ndb_query = "\<lambda>t f n l. (1, [\<lparr>note_id = 5\<rparr>, \<lparr>note_id = 6\<rparr>])" and t = "()" and f = "()"
      and ndb_poll_for_notes = "\<lambda>e s m. ((2, [5, 6]), e)" and e = "()" and sub_id = 1]
    no_matches_is_null [where results = 0 and limit = 10
      and ndb_query = "\<lambda>t f n l. (1, [\<lparr>note_id = 5\<rparr>, \<lparr>note_id = 6\<rparr>])" and t = "()" and f = "()",
      THEN conjunct1]
    kind7_no_match c r
  show ?thesis by (simp add: u)
qed

theorem empty_result_counterexample:
  "spec_ndb_query example_snapshot kind7_filter 1 10 = (1, []) \<and>
   nativeQuery spec_ndb_query 0x3000 (Some example_snapshot) (Some kind7_filter) 10 \<noteq> Some [] \<and>
   nativeQuery spec_ndb_query 0x3000 (Some example_snapshot) (Some kind7_filter) 10 =
     nativeQuery spec_ndb_query 0x3000 None (Some kind7_filter) 10 \<and>
   map_of (subscriptions example_engine) 1 = Some [] \<and>
   fst (nativePollForNotes (spec_poll_for_notes 0) 0x4000 (Some example_engine) 1 10) \<noteq> Some [] \<and>
   fst (nativePollForNotes (spec_poll_for_notes 0) 0x4000 (Some example_engine) 1 10) =
     fst (nativePollForNotes (spec_poll_for_notes 0) 0x4000 None 1 10)"
proof -
  have "matching kind7_filter example_snapshot = []"
    by (rule matching_none [OF kind7_no_match])
  then have "spec_ndb_query example_snapshot kind7_filter 1 10 = (1, [])"
    by (simp add: spec_ndb_query_def newest_first_Nil kind7_filter_def)
  then show ?thesis
    by (simp add: nativeQuery_def nativePollForNotes_def spec_poll_for_notes_def example_engine_eq)
qed

subsection \<open>Queries against the engine of the specification\<close>

lemma not_older_recency: "not_older a b \<longleftrightarrow> recency b \<le> recency a"
  by (auto simp: not_older_def recency_def)

lemma newest_first_mset: "mset (newest_first rows) = mset rows"
  by (simp add: newest_first_def)

lemma newest_first_sorted: "sorted_wrt not_older (newest_first rows)"
proof -
  have "sorted (map recency (sort_key recency rows))" by (rule sorted_sort_key)
  then have "sorted_wrt (\<lambda>a b. recency a \<le> recency b) (sort_key recency rows)"
    by (simp only: sorted_map)
  then have "sorted_wrt (\<lambda>a b. recency b \<le> recency a) (rev (sort_key recency rows))"
    by (simp only: sorted_wrt_rev)
  then show ?thesis
    by (simp only: newest_first_def not_older_recency [abs_def])
qed

lemma newest_first_length: "length (newest_first rows) = length rows"
  by (simp add: newest_first_def)

lemma newest_first_set: "set (newest_first rows) = set rows"
  by (simp add: newest_first_def)

lemma nativeQuery_spec_keys:
  assumes "finalized f" and "results \<noteq> 0"
  shows "keys_of (nativeQuery spec_ndb_query results (Some snap) (Some f) limit) =
           map fst (take (nat limit) (newest_first (matching f snap)))"
proof -
  let ?rows = "take (nat limit) (newest_first (matching f snap))"
  have q: "spec_ndb_query snap f 1 limit = (1, map (\<lambda>row. \<lparr>note_id = fst row\<rparr>) ?rows)"
    using assms(1) by (simp add: spec_ndb_query_def)
  show ?thesis
  proof (cases "?rows = []")
    case True
    with q show ?thesis by (simp add: nativeQuery_answer keys_of_def)
  next
    case False
    with q assms(2) show ?thesis by (simp add: nativeQuery_answer keys_of_def comp_def)
  qed
qed

lemma matching_set:
  "set (matching f snap) =
     {row \<in> set snap. \<forall>fc\<in>set (criteria f). \<exists>e\<in>set (elements fc).
        element_matches (field_type fc) e (snd row)}"
  by (auto simp: matching_def filter_matches_def field_matches_def list_all_iff list_ex_iff)

lemma returned_keys_are_stored:
  assumes "distinct (map fst snap)"
    and "k \<in> set (map fst (take n (newest_first (matching f snap))))"
  shows "\<exists>r. spec_get_note_by_key snap k = Some r \<and> filter_matches f r"
proof -
  from assms(2) obtain row where row: "row \<in> set (take n (newest_first (matching f snap)))"
    and k: "k = fst row" by auto
  from row have "row \<in> set (newest_first (matching f snap))" by (rule in_set_takeD)
  then have "row \<in> set (matching f snap)" by (simp only: newest_first_set)
  then have m: "row \<in> set snap" "filter_matches f (snd row)" by (simp_all add: matching_def)
  from m(1) have "(fst row, snd row) \<in> set snap" by simp
  with assms(1) have "map_of snap (fst row) = Some (snd row)" by (rule map_of_is_SomeI)
  with m(2) k show ?thesis by (simp add: spec_get_note_by_key_def)
qed

text \<open>
  Claim C1, as the code has it, with the engine of the specification. For every
  snapshot, finalized filter and limit: when the buffer for \<open>limit\<close> results is refused,
  \<open>nativeQuery\<close> answers \<open>null\<close> whatever matches. When it is allocated, the keys that
  \<open>nativeQuery\<close> answers (none when it answers \<open>null\<close>) are the first \<open>limit\<close> keys of
  an arrangement of all matching records by descending creation timestamp, ties by
  descending Record Key: at most \<open>limit\<close> keys (none for a negative limit), exactly
  \<open>limit\<close> when more records match, and, the Record Keys of the snapshot being distinct,
  each the key under which the snapshot holds a record that matches the filter. A record
  matches when it matches at least one listed element of every field of the filter.
\<close>

theorem query_contract:
  assumes "finalized f"
  shows "(results = 0 \<longrightarrow>
            nativeQuery spec_ndb_query results (Some snap) (Some f) limit = None) \<and>
         (results \<noteq> 0 \<longrightarrow>
            (\<exists>ordered. mset ordered = mset (matching f snap) \<and> sorted_wrt not_older ordered \<and>
               keys_of (nativeQuery spec_ndb_query results (Some snap) (Some f) limit) =
                 map fst (take (nat limit) ordered)) \<and>
            length (keys_of (nativeQuery spec_ndb_query results (Some snap) (Some f) limit))
              \<le> nat limit \<and>
            length (keys_of (nativeQuery spec_ndb_query results (Some snap) (Some f) limit)) =
              min (nat limit) (length (matching f snap)) \<and>
            (distinct (map fst snap) \<longrightarrow>
               (\<forall>k. k \<in> set (keys_of (nativeQuery spec_ndb_query results (Some snap) (Some f)
                                       limit)) \<longrightarrow>
                  (\<exists>r. spec_get_note_by_key snap k = Some r \<and> filter_matches f r)))) \<and>
         set (matching f snap) =
           {row \<in> set snap. \<forall>fc\<in>set (criteria f). \<exists>e\<in>set (elements fc).
              element_matches (field_type fc) e (snd row)}"
proof -
  let ?ordered = "newest_first (matching f snap)"
  let ?keys = "keys_of (nativeQuery spec_ndb_query results (Some snap) (Some f) limit)"
  have refused: "results = 0 \<longrightarrow>
      nativeQuery spec_ndb_query results (Some snap) (Some f) limit = None"
    by (simp add: nativeQuery_answer)
  have allocated: "(\<exists>ordered. mset ordered = mset (matching f snap) \<and>
        sorted_wrt not_older ordered \<and> ?keys = map fst (take (nat limit) ordered)) \<and>
      length ?keys \<le> nat limit \<and>
      length ?keys = min (nat limit) (length (matching f snap)) \<and>
      (distinct (map fst snap) \<longrightarrow>
         (\<forall>k. k \<in> set ?keys \<longrightarrow>
            (\<exists>r. spec_get_note_by_key snap k = Some r \<and> filter_matches f r)))"
    if r: "results \<noteq> 0"
  proof -
    have k: "?keys = map fst (take (nat limit) ?ordered)"
      by (rule nativeQuery_spec_keys [OF assms r])
    have l: "length ?keys = min (nat limit) (length (matching f snap))"
      by (simp add: k newest_first_length min.commute)
    then have le: "length ?keys \<le> nat limit" by simp
    have "\<exists>r. spec_get_note_by_key snap x = Some r \<and> filter_matches f r"
      if "distinct (map fst snap)" "x \<in> set ?keys" for x
      using that returned_keys_are_stored [of snap x "nat limit" f] by (simp only: k)
    then show ?thesis
      using k l le newest_first_mset [of "matching f snap"]
        newest_first_sorted [of "matching f snap"]
      by blast
  qed
  show ?thesis
    using refused allocated matching_set [of f snap] by blast
qed

lemma timeline_keys_distinct: "distinct (map fst timeline_snapshot)"
  by (simp add: timeline_snapshot_def example_snapshot_def)

theorem query_contract_witness:
  "finalized kind1_filter \<and> distinct (map fst timeline_snapshot) \<and>
   keys_of (nativeQuery spec_ndb_query 0x3000 (Some timeline_snapshot) (Some kind1_filter) 1)
     = [2] \<and>
   keys_of (nativeQuery spec_ndb_query 0x3000 (Some timeline_snapshot) (Some kind1_filter) 10)
     = [2, 1] \<and>
   keys_of (nativeQuery spec_ndb_query 0x3000 (Some timeline_snapshot) (Some kind7_filter) 10)
     = [3] \<and>
   length (matching kind1_filter timeline_snapshot) = 2 \<and>
   (\<exists>r. spec_get_note_by_key timeline_snapshot 2 = Some r \<and> filter_matches kind1_filter r)"
proof -
  have f: "finalized kind1_filter" by (simp add: kind1_filter_def)
  have r: "(0x3000 :: jlong) \<noteq> 0" by simp
  have a: "keys_of (nativeQuery spec_ndb_query 0x3000 (Some timeline_snapshot)
      (Some kind1_filter) 1) = [2]"
    by code_simp
  have b: "keys_of (nativeQuery spec_ndb_query 0x3000 (Some timeline_snapshot)
      (Some kind1_filter) 10) = [2, 1]"
    by code_simp
  have c: "keys_of (nativeQuery spec_ndb_query 0x3000 (Some timeline_snapshot)
      (Some kind7_filter) 10) = [3]"
    by code_simp
  from query_contract [OF f, of "0x3000" timeline_snapshot 10]
    query_contract [OF f, of "0x3000" timeline_snapshot 1]
    a b c f r timeline_keys_distinct
  show ?thesis by auto
qed

theorem query_refused_allocation_counterexample:
  "length (matching kind1_filter timeline_snapshot) = 2 \<and>
   nativeQuery spec_ndb_query 0 (Some timeline_snapshot) (Some kind1_filter) 1 = None \<and>
   nativeQuery spec_ndb_query 0 (Some timeline_snapshot) (Some kind1_filter) 2147483647 = None \<and>
   nativeQuery spec_ndb_query 0x3000 (Some timeline_snapshot) (Some kind1_filter) 1 = Some [2]"
proof -
  have "length (matching kind1_filter timeline_snapshot) = 2" by code_simp
  moreover have "nativeQuery spec_ndb_query 0x3000 (Some timeline_snapshot)
      (Some kind1_filter) 1 = Some [2]"
    by code_simp
  ultimately show ?thesis by (simp add: nativeQuery_def)
qed

end
